theory Spec2Isabelle
  imports Complex_Main "HOL-Library.Signed_Division"
begin

section \<open>go-ipintel: a client of the getipintel.net proxy detection service\<close>

text \<open>
  The package is one file, \<^verbatim>\<open>src/ipintel.go\<close>: a \<^verbatim>\<open>Client\<close> struct, its
  constructor \<^verbatim>\<open>NewClient\<close>, the URL builder \<^verbatim>\<open>getURL\<close> and the query
  \<^verbatim>\<open>GetProxyScore\<close>, which takes a token from a package-wide rate limiter, sends one
  HTTP GET and decodes the JSON answer.

  Go values are modelled as follows. A \<^verbatim>\<open>string\<close> is a \<open>string\<close>;
  \<^verbatim>\<open>type CheckType string\<close> is a synonym of it; a \<^verbatim>\<open>time.Duration\<close> is its
  number of nanoseconds and a \<^verbatim>\<open>time.Time\<close> the nanoseconds since a fixed instant,
  both as \<open>int\<close> (no claim comes near the 64-bit range); an \<^verbatim>\<open>error\<close> is
  \<open>None\<close> for \<^verbatim>\<open>nil\<close> and \<open>Some msg\<close> for an error whose \<^verbatim>\<open>Error()\<close> text is
  \<open>msg\<close>. A \<^verbatim>\<open>float32\<close> is only stored and returned by this package, never computed
  with; it is modelled by the real number it denotes (the decoder yields finite values
  only), and its zero value is \<open>0\<close>.
\<close>

subsection \<open>Constants and data\<close>

type_synonym Duration = int
type_synonym Time = int
type_synonym float32 = real
type_synonym error = "string option"
type_synonym CheckType = string

definition Second :: Duration where
  "Second = 1000000000"

definition version :: string where
  "version = ''0.2.0''"

definition urlBase :: string where
  "urlBase = ''check.getipintel.net/check.php''"

definition userAgent :: string where
  "userAgent = ''go-ipintel/'' @ version @ '' (github.com/janeczku/go-ipintel)''"

definition Static :: CheckType where
  "Static = ''m''"

definition Dynamic :: CheckType where
  "Dynamic = ''b''"

record Client =
  Email :: string
  Scheme :: string
  Check :: CheckType
  MaxWait :: Duration

text \<open>The anonymous struct \<^verbatim>\<open>response\<close> the JSON body is decoded into.\<close>

record response =
  Status :: string
  ErrMsg :: string
  Score :: float32

text \<open>
  What the package reads and writes of an \<^verbatim>\<open>http.Request\<close> and an
  \<^verbatim>\<open>http.Response\<close>: method, URL and header of the one, status code and body of the
  other. A header is a list of key and value pairs.
\<close>

record Request =
  Method :: string
  URL :: string
  Header :: "(string \<times> string) list"

record Response =
  StatusCode :: int
  Body :: string

text \<open>\<^verbatim>\<open>Header.Set\<close>: the key gets this one value, whatever it had before.\<close>

definition HeaderSet :: "Request \<Rightarrow> string \<Rightarrow> string \<Rightarrow> Request" where
  "HeaderSet req k v = req\<lparr>Header := (k, v) # filter (\<lambda>kv. fst kv \<noteq> k) (Header req)\<rparr>"

subsection \<open>Formatting\<close>

text \<open>
  The fragment of \<^verbatim>\<open>fmt.Sprintf\<close> the package uses: the verbs \<^verbatim>\<open>%s\<close> and
  \<^verbatim>\<open>%v\<close>, each replaced by the next operand, every other character copied. An
  operand is given by its text: a string by itself, an error by its \<^verbatim>\<open>Error()\<close>, a
  duration by its \<^verbatim>\<open>String()\<close>. A verb without an operand prints as Go prints it;
  every call of the package passes as many operands as its format has verbs.
  \<^verbatim>\<open>fmt.Errorf\<close> is the error with that text.
\<close>

fun Sprintf :: "string \<Rightarrow> string list \<Rightarrow> string" where
  "Sprintf [] args = []"
| "Sprintf [c] args = [c]"
| "Sprintf (c # v # fmt) args =
     (if c = CHR ''%'' \<and> (v = CHR ''s'' \<or> v = CHR ''v'')
      then (case args of
              [] \<Rightarrow> ''%!'' @ [v] @ ''(MISSING)'' @ Sprintf fmt []
            | a # as \<Rightarrow> a @ Sprintf fmt as)
      else c # Sprintf (v # fmt) args)"

definition Errorf :: "string \<Rightarrow> string list \<Rightarrow> error" where
  "Errorf fmt args = Some (Sprintf fmt args)"

subsection \<open>NewClient and getURL\<close>

definition NewClient :: "string \<Rightarrow> bool \<Rightarrow> CheckType \<Rightarrow> Duration \<Rightarrow> Client" where
  "NewClient email ssl check mWait =
     (let scheme = ''http'';
          scheme = (if ssl then ''https'' else scheme)
      in \<lparr>Email = email, Scheme = scheme, Check = check, MaxWait = mWait\<rparr>)"

definition getURL :: "Client \<Rightarrow> string \<Rightarrow> string" where
  "getURL c ip =
     Sprintf ''%s://%s?ip=%s&contact=%s&flags=%s&format=json''
       [Scheme c, urlBase, ip, Email c, Check c]"

subsection \<open>The world of one query\<close>

text \<open>
  \<^verbatim>\<open>GetProxyScore\<close> calls four things that are not code of this package: the rate
  limiter's \<^verbatim>\<open>WaitMaxDuration\<close>, \<^verbatim>\<open>http.NewRequest\<close>, the HTTP client's
  \<^verbatim>\<open>Do\<close> and the JSON decoder's \<^verbatim>\<open>Decode\<close>; and it prints a duration with
  \<^verbatim>\<open>%s\<close>. They are parameters of the model, collected in an environment: each
  returns \<open>Inl\<close> with the error's text where the Go call returns a non-nil error. The
  limiter works on a state of its own, of any type \<open>'l\<close>.

  The state of the world is the limiter's state and the trace of what the call did to
  the outside: the requests sent, the bodies handed to the decoder, the bodies closed.
\<close>

record 'l Env =
  WaitMaxDuration :: "int \<Rightarrow> Duration \<Rightarrow> 'l \<Rightarrow> bool \<times> 'l"
  DurationString :: "Duration \<Rightarrow> string"
  NewRequest :: "string \<Rightarrow> string \<Rightarrow> string + Request"
  Do :: "Request \<Rightarrow> string + Response"
  Decode :: "string \<Rightarrow> string + response"

datatype Event = HttpDo Request | JsonDecode string | BodyClose

record 'l World =
  limiter :: 'l
  trace :: "Event list"

definition emit :: "Event \<Rightarrow> 'l World \<Rightarrow> 'l World" where
  "emit e w = w\<lparr>trace := trace w @ [e]\<rparr>"

subsection \<open>GetProxyScore\<close>

text \<open>
  The named results \<^verbatim>\<open>score\<close> and \<^verbatim>\<open>err\<close> start at their zero values; a bare
  \<^verbatim>\<open>return\<close> returns what they hold then, and \<^verbatim>\<open>score\<close> is assigned by the last
  \<^verbatim>\<open>return\<close> only. The deferred \<^verbatim>\<open>Close\<close> is registered after the check of the
  status code, and runs on every return after that.
\<close>

definition GetProxyScore ::
  "'l Env \<Rightarrow> Client \<Rightarrow> string \<Rightarrow> 'l World \<Rightarrow> (float32 \<times> error) \<times> 'l World" where
  "GetProxyScore env c ip w =
     (case WaitMaxDuration env 1 (MaxWait c) (limiter w) of (ok, l') \<Rightarrow>
        let w1 = w\<lparr>limiter := l'\<rparr> in
        if \<not> ok then
          ((0, Errorf ''Throttled: Can't make query within the next %s''
                 [DurationString env (MaxWait c)]), w1)
        else
          (case NewRequest env ''GET'' (getURL c ip) of
             Inl e \<Rightarrow> ((0, Errorf ''Failed preparing request: %v'' [e]), w1)
           | Inr req0 \<Rightarrow>
               let req = HeaderSet req0 ''User-Agent'' userAgent;
                   w2 = emit (HttpDo req) w1
               in (case Do env req of
                     Inl e \<Rightarrow> ((0, Errorf ''Failed to query API: %v'' [e]), w2)
                   | Inr resp \<Rightarrow>
                       if StatusCode resp = 429 then
                         ((0, Errorf ''API error: Rate limit exceeded'' []), w2)
                       else
                         let w3 = emit (JsonDecode (Body resp)) w2;
                             w4 = emit BodyClose w3
                         in (case Decode env (Body resp) of
                               Inl e \<Rightarrow>
                                 ((0, Errorf ''Failed to parse API response: %v'' [e]), w4)
                             | Inr respObj \<Rightarrow>
                                 if Status respObj \<noteq> ''success'' then
                                   ((0, Errorf ''API error: %s'' [ErrMsg respObj]), w4)
                                 else ((Score respObj, None), w4)))))"

text \<open>\<open>contains s t\<close>: the text \<open>t\<close> occurs in \<open>s\<close>, as \<^verbatim>\<open>strings.Contains\<close> tests.\<close>

fun contains :: "string \<Rightarrow> string \<Rightarrow> bool" where
  "contains [] t = (t = [])"
| "contains (x # s) t = (take (length t) (x # s) = t \<or> contains s t)"

subsection \<open>The rate limiter\<close>

text \<open>
  Modelled from the spec: the token bucket behind \<^verbatim>\<open>rateLimiter\<close>. It is a
  \<^verbatim>\<open>Bucket\<close> of the imported package \<^verbatim>\<open>github.com/juju/ratelimit\<close>, whose code is
  not among the sources of this repository; the source has only its construction,
  \<^verbatim>\<open>NewBucketWithQuantum(4*time.Second, 15, 1)\<close>, and the one call
  \<^verbatim>\<open>WaitMaxDuration(1, c.MaxWait)\<close>. The model is the bucket of sections 3 and 4.1 of
  the spec: a capacity, a quantum added at every whole fill interval since the start
  (refilled when the bucket is next looked at, never beyond the capacity), a request
  that is granted at once when the tokens are there, granted against the refills to come
  when the wait for them is no longer than \<open>maxWait\<close> (the caller then sleeps that long),
  and denied otherwise, taking nothing. The names and the arithmetic are the package's
  (\<^verbatim>\<open>currentTick\<close>, \<^verbatim>\<open>adjustavailableTokens\<close>, \<^verbatim>\<open>take\<close>). The test for a denial is
  the package's as well: the wait needed is compared with \<open>maxWait\<close> as it is given, and
  \<^verbatim>\<open>WaitMaxDuration\<close> has no case of its own for \<open>maxWait = 0\<close>; this is where the
  model follows the package and not section 4.1 of the spec.

  Go's integer division truncates (\<open>sdiv\<close>). The constructor panics on an argument
  that is not positive: \<open>None\<close>.
\<close>

text \<open>Modelled from the spec: the state of the bucket (type \<^verbatim>\<open>Bucket\<close> of the package):
  its parameters, the tokens it holds (negative while callers wait for refills to come)
  and the tick up to which it has been refilled.\<close>

record Bucket =
  startTime :: Time
  capacity :: int
  quantum :: int
  fillInterval :: Duration
  availableTokens :: int
  latestTick :: int

text \<open>Modelled from the spec: the constructor \<^verbatim>\<open>NewBucketWithQuantum\<close> of the package;
  the bucket starts full, at the time it is made.\<close>

definition NewBucketWithQuantum :: "Duration \<Rightarrow> int \<Rightarrow> int \<Rightarrow> Time \<Rightarrow> Bucket option" where
  "NewBucketWithQuantum fillInterval' capacity' quantum' now =
     (if fillInterval' \<le> 0 \<or> capacity' \<le> 0 \<or> quantum' \<le> 0 then None
      else Some \<lparr>startTime = now, capacity = capacity', quantum = quantum',
                 fillInterval = fillInterval', availableTokens = capacity', latestTick = 0\<rparr>)"

text \<open>The package variable \<^verbatim>\<open>rateLimiter\<close>, made when the package is initialised.\<close>

definition rateLimiter :: "Time \<Rightarrow> Bucket option" where
  "rateLimiter now = NewBucketWithQuantum (4 * Second) 15 1 now"

text \<open>Modelled from the spec: the number of whole fill intervals since the start
  (\<^verbatim>\<open>currentTick\<close> of the package).\<close>

definition currentTick :: "Bucket \<Rightarrow> Time \<Rightarrow> int" where
  "currentTick tb now = (now - startTime tb) sdiv fillInterval tb"

text \<open>Modelled from the spec: the refill when the bucket is looked at, a quantum for every
  tick since the last look, never beyond the capacity (\<^verbatim>\<open>adjustavailableTokens\<close> of
  the package).\<close>

definition adjustavailableTokens :: "Bucket \<Rightarrow> int \<Rightarrow> Bucket" where
  "adjustavailableTokens tb tick =
     (let lastTick = latestTick tb;
          tb = tb\<lparr>latestTick := tick\<rparr>
      in if availableTokens tb \<ge> capacity tb then tb
         else
           let tb = tb\<lparr>availableTokens := availableTokens tb + (tick - lastTick) * quantum tb\<rparr>
           in if availableTokens tb > capacity tb
              then tb\<lparr>availableTokens := capacity tb\<rparr>
              else tb)"

text \<open>Modelled from the spec: the request for \<open>count\<close> tokens (\<^verbatim>\<open>take\<close> of the
  package). \<open>take_bucket tb now count maxWait\<close> is the time to wait, whether the tokens
  were taken, and the bucket afterwards.\<close>

definition take_bucket ::
  "Bucket \<Rightarrow> Time \<Rightarrow> int \<Rightarrow> Duration \<Rightarrow> Duration \<times> bool \<times> Bucket" where
  "take_bucket tb now count maxWait =
     (if count \<le> 0 then (0, True, tb)
      else
        let tick = currentTick tb now;
            tb = adjustavailableTokens tb tick;
            avail = availableTokens tb - count
        in if avail \<ge> 0 then (0, True, tb\<lparr>availableTokens := avail\<rparr>)
           else
             let endTick = tick + (- avail + quantum tb - 1) sdiv quantum tb;
                 endTime = startTime tb + endTick * fillInterval tb;
                 waitTime = endTime - now
             in if waitTime > maxWait then (0, False, tb)
                else (waitTime, True, tb\<lparr>availableTokens := avail\<rparr>))"

text \<open>
  Modelled from the spec: \<^verbatim>\<open>WaitMaxDuration\<close> of the package, on the bucket and the
  clock it reads with \<^verbatim>\<open>Now\<close>: it takes the tokens under the bucket's lock and then
  sleeps for the time to wait, which moves the clock on by that time. (The time an HTTP
  exchange takes is not modelled: between two calls the clock moves by sleeping only.)
\<close>

record Limiter =
  bucket :: Bucket
  clock :: Time

definition Bucket_WaitMaxDuration :: "int \<Rightarrow> Duration \<Rightarrow> Limiter \<Rightarrow> bool \<times> Limiter" where
  "Bucket_WaitMaxDuration count maxWait l =
     (case take_bucket (bucket l) (clock l) count maxWait of (d, ok, tb) \<Rightarrow>
        (ok, \<lparr>bucket = tb, clock = (if d > 0 then clock l + d else clock l)\<rparr>))"

text \<open>
  A run of the bucket: requests for one token each, given by the time of the request
  and its \<open>maxWait\<close>, served one after the other (the bucket is behind a lock). The
  outcome of a request records both, the time the caller has to wait and whether the
  token was taken.
\<close>

datatype Outcome = Outcome (asked: Time) (bound: Duration) (waited: Duration) (granted: bool)

fun takes :: "Bucket \<Rightarrow> (Time \<times> Duration) list \<Rightarrow> Outcome list" where
  "takes tb [] = []"
| "takes tb ((now, maxWait) # rs) =
     (case take_bucket tb now 1 maxWait of (d, ok, tb') \<Rightarrow>
        Outcome now maxWait d ok # takes tb' rs)"

fun after :: "Bucket \<Rightarrow> (Time \<times> Duration) list \<Rightarrow> Bucket" where
  "after tb [] = tb"
| "after tb ((now, maxWait) # rs) =
     (case take_bucket tb now 1 maxWait of (d, ok, tb') \<Rightarrow> after tb' rs)"

text \<open>A token was granted at once; a token was granted and its caller is through
  (has slept, if it had to) by the time \<open>T\<close>.\<close>

definition immediate :: "Outcome \<Rightarrow> bool" where
  "immediate out = (granted out \<and> waited out = 0)"

definition through :: "Time \<Rightarrow> Outcome \<Rightarrow> bool" where
  "through T out = (granted out \<and> asked out + waited out \<le> T)"

text \<open>Successive calls of \<^verbatim>\<open>GetProxyScore\<close> by one client, and their results.\<close>

fun calls ::
  "'l Env \<Rightarrow> Client \<Rightarrow> string \<Rightarrow> nat \<Rightarrow> 'l World \<Rightarrow> (float32 \<times> error) list \<times> 'l World" where
  "calls env c ip 0 w = ([], w)"
| "calls env c ip (Suc n) w =
     (case GetProxyScore env c ip w of (r, w') \<Rightarrow>
        (case calls env c ip n w' of (rs, w'') \<Rightarrow> (r # rs, w'')))"

subsection \<open>Environments for the examples\<close>

text \<open>
  A limiter without state that always grants, a request constructor that never fails,
  a server that answers every request with the given status code and body, and a
  decoder that knows three bodies: a success with result 0.5, the service's error
  ``no results'', and anything else, which it cannot parse. Durations are printed for
  the three values the examples use. The second environment has the bucket for its
  limiter and a server that always answers with the success.
\<close>

definition exampleDecode :: "string \<Rightarrow> string + response" where
  "exampleDecode body =
     (if body = ''success 0.5'' then
        Inr \<lparr>Status = ''success'', ErrMsg = [], Score = 0.5\<rparr>
      else if body = ''error no results'' then
        Inr \<lparr>Status = ''error'', ErrMsg = ''no results'', Score = 0\<rparr>
      else Inl ''invalid character'')"

definition exampleDurationString :: "Duration \<Rightarrow> string" where
  "exampleDurationString d =
     (if d = 0 then ''0s'' else if d = Second then ''1s'' else if d = 5 * Second then ''5s''
      else ''1m0s'')"

definition exampleEnv :: "int \<Rightarrow> string \<Rightarrow> unit Env" where
  "exampleEnv code body =
     \<lparr>WaitMaxDuration = (\<lambda>n d l. (True, l)),
      DurationString = exampleDurationString,
      NewRequest = (\<lambda>m u. Inr \<lparr>Method = m, URL = u, Header = []\<rparr>),
      Do = (\<lambda>r. Inr \<lparr>StatusCode = code, Body = body\<rparr>),
      Decode = exampleDecode\<rparr>"

definition bucketEnv :: "Limiter Env" where
  "bucketEnv =
     \<lparr>WaitMaxDuration = Bucket_WaitMaxDuration,
      DurationString = exampleDurationString,
      NewRequest = (\<lambda>m u. Inr \<lparr>Method = m, URL = u, Header = []\<rparr>),
      Do = (\<lambda>r. Inr \<lparr>StatusCode = 200, Body = ''success 0.5''\<rparr>),
      Decode = exampleDecode\<rparr>"

definition exampleBucket :: Bucket where
  "exampleBucket =
     \<lparr>startTime = 0, capacity = 15, quantum = 1, fillInterval = 4 * Second,
      availableTokens = 15, latestTick = 0\<rparr>"

definition freshWorld :: "Limiter World" where
  "freshWorld = \<lparr>limiter = \<lparr>bucket = exampleBucket, clock = 0\<rparr>, trace = []\<rparr>"

definition drainedWorld :: "Limiter World" where
  "drainedWorld =
     \<lparr>limiter = \<lparr>bucket = exampleBucket\<lparr>availableTokens := 0\<rparr>, clock = 0\<rparr>, trace = []\<rparr>"

definition exampleRequests :: "(Time \<times> Duration) list" where
  "exampleRequests =
     (0, 0) # replicate 14 (0, 0) @ [(Second, 5 * Second), (2 * Second, Second)]"

text \<open>
  An environment whose decoder accepts every body and finds the status "success" and no
  result in it, as Go's decoder accepts a JSON object without the field
  \<^verbatim>\<open>result\<close> and leaves \<^verbatim>\<open>Score\<close> at its zero value.
\<close>

definition noResultEnv :: "unit Env" where
  "noResultEnv =
     (exampleEnv 200 ''success, no result'')
       \<lparr>Decode := (\<lambda>body. Inr \<lparr>Status = ''success'', ErrMsg = [], Score = 0\<rparr>)\<rparr>"

definition exampleClient :: Client where
  "exampleClient = NewClient ''a@b.com'' False Static (5 * Second)"

definition exampleWorld :: "unit World" where
  "exampleWorld = \<lparr>limiter = (), trace = []\<rparr>"

section \<open>Properties\<close>

subsection \<open>NewClient\<close>

text \<open>
  C8. For every email, ssl, check and mWait, the client \<^verbatim>\<open>NewClient\<close> returns has
  Email equal to email, Scheme "https" when ssl is true and "http" when it is false,
  Check equal to check and MaxWait equal to mWait.
\<close>

theorem NewClient_fields:
  "Email (NewClient email ssl check mWait) = email \<and>
   Scheme (NewClient email True check mWait) = ''https'' \<and>
   Scheme (NewClient email False check mWait) = ''http'' \<and>
   Check (NewClient email ssl check mWait) = check \<and>
   MaxWait (NewClient email ssl check mWait) = mWait"
  by (simp add: NewClient_def)

subsection \<open>getURL\<close>

text \<open>
  C3. For the client with Scheme "http", Email "a@b.com" and Check Static, the URL
  built for the address "1.2.3.4" is exactly
  \<^verbatim>\<open>http://check.getipintel.net/check.php?ip=1.2.3.4&contact=a@b.com&flags=m&format=json\<close>.
  In general the URL is a function of the scheme, the fixed host, the address, the email
  and the check flag alone (the MaxWait of the client plays no part), and the values are
  placed into it as they are, unencoded.
\<close>

theorem getURL_text:
  "getURL \<lparr>Email = ''a@b.com'', Scheme = ''http'', Check = Static, MaxWait = mWait\<rparr> ''1.2.3.4'' =
     ''http://check.getipintel.net/check.php?ip=1.2.3.4&contact=a@b.com&flags=m&format=json'' \<and>
   getURL c ip =
     Scheme c @ ''://check.getipintel.net/check.php?ip='' @ ip @ ''&contact='' @ Email c @
     ''&flags='' @ Check c @ ''&format=json''"
  by (simp add: getURL_def urlBase_def Static_def)

subsection \<open>GetProxyScore: the answers of the service\<close>

lemma contains_append: "contains (p @ t) t"
proof (induction p)
  case Nil
  show ?case by (cases t) simp_all
next
  case (Cons x p)
  then show ?case by simp
qed

text \<open>
  C4. For every HTTP response with status code 429, \<^verbatim>\<open>GetProxyScore\<close> returns the
  error "API error: Rate limit exceeded" whatever the body of the response is, and the
  body is never decoded: the one thing the call does to the outside is to send the
  request.
\<close>

theorem GetProxyScore_429:
  assumes "WaitMaxDuration env 1 (MaxWait c) (limiter w) = (True, l')"
    and "NewRequest env ''GET'' (getURL c ip) = Inr req0"
    and "Do env (HeaderSet req0 ''User-Agent'' userAgent) = Inr resp"
    and "StatusCode resp = 429"
  shows "fst (GetProxyScore env c ip w) = (0, Some ''API error: Rate limit exceeded'') \<and>
         trace (snd (GetProxyScore env c ip w)) =
           trace w @ [HttpDo (HeaderSet req0 ''User-Agent'' userAgent)]"
  using assms by (simp add: GetProxyScore_def Errorf_def emit_def Let_def)

theorem GetProxyScore_429_witness:
  "fst (GetProxyScore (exampleEnv 429 ''success 0.5'') exampleClient ''1.2.3.4'' exampleWorld) =
     (0, Some ''API error: Rate limit exceeded'') \<and>
   trace (snd (GetProxyScore (exampleEnv 429 ''success 0.5'') exampleClient ''1.2.3.4''
                 exampleWorld)) =
     [HttpDo \<lparr>Method = ''GET'', URL = getURL exampleClient ''1.2.3.4'',
              Header = [(''User-Agent'', userAgent)]\<rparr>]"
proof -
  let ?env = "exampleEnv 429 ''success 0.5''"
  let ?req0 = "\<lparr>Method = ''GET'', URL = getURL exampleClient ''1.2.3.4'', Header = []\<rparr>"
  let ?resp = "\<lparr>StatusCode = 429, Body = ''success 0.5''\<rparr>"
  have 1: "WaitMaxDuration ?env 1 (MaxWait exampleClient) (limiter exampleWorld) = (True, ())"
    by (simp add: exampleEnv_def)
  have 2: "NewRequest ?env ''GET'' (getURL exampleClient ''1.2.3.4'') = Inr ?req0"
    by (simp add: exampleEnv_def)
  have 3: "Do ?env (HeaderSet ?req0 ''User-Agent'' userAgent) = Inr ?resp"
    by (simp add: exampleEnv_def)
  have 4: "StatusCode ?resp = 429" by simp
  from GetProxyScore_429 [OF 1 2 3 4] show ?thesis
    by (simp add: exampleWorld_def HeaderSet_def)
qed

text \<open>
  C5. For every response whose status code is not 429 and whose body decodes to a
  status field that is the literal "success", \<^verbatim>\<open>GetProxyScore\<close> returns the decoded
  result and a nil error; a decoded result of 0.5 gives the score 0.5.
\<close>

theorem GetProxyScore_success:
  assumes "WaitMaxDuration env 1 (MaxWait c) (limiter w) = (True, l')"
    and "NewRequest env ''GET'' (getURL c ip) = Inr req0"
    and "Do env (HeaderSet req0 ''User-Agent'' userAgent) = Inr resp"
    and "StatusCode resp \<noteq> 429"
    and "Decode env (Body resp) = Inr respObj"
    and "Status respObj = ''success''"
  shows "fst (GetProxyScore env c ip w) = (Score respObj, None)"
  using assms by (simp add: GetProxyScore_def Let_def)

theorem GetProxyScore_success_witness:
  "fst (GetProxyScore (exampleEnv 200 ''success 0.5'') exampleClient ''1.2.3.4'' exampleWorld) =
     (0.5, None)"
proof -
  let ?env = "exampleEnv 200 ''success 0.5''"
  let ?req0 = "\<lparr>Method = ''GET'', URL = getURL exampleClient ''1.2.3.4'', Header = []\<rparr>"
  let ?resp = "\<lparr>StatusCode = 200, Body = ''success 0.5''\<rparr>"
  let ?obj = "\<lparr>Status = ''success'', ErrMsg = [], Score = 0.5\<rparr>"
  have 1: "WaitMaxDuration ?env 1 (MaxWait exampleClient) (limiter exampleWorld) = (True, ())"
    by (simp add: exampleEnv_def)
  have 2: "NewRequest ?env ''GET'' (getURL exampleClient ''1.2.3.4'') = Inr ?req0"
    by (simp add: exampleEnv_def)
  have 3: "Do ?env (HeaderSet ?req0 ''User-Agent'' userAgent) = Inr ?resp"
    by (simp add: exampleEnv_def)
  have 4: "StatusCode ?resp \<noteq> 429" by simp
  have 5: "Decode ?env (Body ?resp) = Inr ?obj"
    by (simp add: exampleEnv_def exampleDecode_def)
  have 6: "Status ?obj = ''success''" by simp
  from GetProxyScore_success [OF 1 2 3 4 5 6] show ?thesis by simp
qed

text \<open>
  C6, as the claim states it: for every decodable response whose status field is not
  "success", the error returned contains the message of the service. It fails for a
  response with status code 429: the body is then not looked at. The example is a 429
  response whose body decodes to the status "error" and the message "no results"; the
  error returned is the one of C4, and "no results" does not occur in it.
\<close>

theorem GetProxyScore_service_error_429_counterexample:
  "Do (exampleEnv 429 ''error no results'')
      (HeaderSet \<lparr>Method = ''GET'', URL = getURL exampleClient ''1.2.3.4'', Header = []\<rparr>
         ''User-Agent'' userAgent) =
     Inr \<lparr>StatusCode = 429, Body = ''error no results''\<rparr> \<and>
   Decode (exampleEnv 429 ''error no results'') ''error no results'' =
     Inr \<lparr>Status = ''error'', ErrMsg = ''no results'', Score = 0\<rparr> \<and>
   ''error'' \<noteq> ''success'' \<and>
   snd (fst (GetProxyScore (exampleEnv 429 ''error no results'') exampleClient ''1.2.3.4''
               exampleWorld)) = Some ''API error: Rate limit exceeded'' \<and>
   \<not> contains ''API error: Rate limit exceeded'' ''no results''"
  by (simp add: GetProxyScore_def exampleEnv_def exampleDecode_def exampleClient_def
      exampleWorld_def NewClient_def Errorf_def emit_def Let_def)

text \<open>
  C6, amended: for every response whose status code is not 429 and whose body decodes
  to a status field that is not the literal "success", \<^verbatim>\<open>GetProxyScore\<close> returns
  the score 0 and the error "API error: " followed by the message of the service, which
  the error therefore contains.
\<close>

theorem GetProxyScore_service_error:
  assumes "WaitMaxDuration env 1 (MaxWait c) (limiter w) = (True, l')"
    and "NewRequest env ''GET'' (getURL c ip) = Inr req0"
    and "Do env (HeaderSet req0 ''User-Agent'' userAgent) = Inr resp"
    and "StatusCode resp \<noteq> 429"
    and "Decode env (Body resp) = Inr respObj"
    and "Status respObj \<noteq> ''success''"
  shows "fst (GetProxyScore env c ip w) = (0, Some (''API error: '' @ ErrMsg respObj)) \<and>
         contains (''API error: '' @ ErrMsg respObj) (ErrMsg respObj)"
proof -
  have "fst (GetProxyScore env c ip w) = (0, Some (''API error: '' @ ErrMsg respObj))"
    using assms by (simp add: GetProxyScore_def Errorf_def Let_def)
  then show ?thesis
    using contains_append [of "''API error: ''" "ErrMsg respObj"] by simp
qed

theorem GetProxyScore_service_error_witness:
  "fst (GetProxyScore (exampleEnv 200 ''error no results'') exampleClient ''1.2.3.4''
          exampleWorld) = (0, Some ''API error: no results'') \<and>
   contains ''API error: no results'' ''no results''"
proof -
  let ?env = "exampleEnv 200 ''error no results''"
  let ?req0 = "\<lparr>Method = ''GET'', URL = getURL exampleClient ''1.2.3.4'', Header = []\<rparr>"
  let ?resp = "\<lparr>StatusCode = 200, Body = ''error no results''\<rparr>"
  let ?obj = "\<lparr>Status = ''error'', ErrMsg = ''no results'', Score = 0\<rparr>"
  have 1: "WaitMaxDuration ?env 1 (MaxWait exampleClient) (limiter exampleWorld) = (True, ())"
    by (simp add: exampleEnv_def)
  have 2: "NewRequest ?env ''GET'' (getURL exampleClient ''1.2.3.4'') = Inr ?req0"
    by (simp add: exampleEnv_def)
  have 3: "Do ?env (HeaderSet ?req0 ''User-Agent'' userAgent) = Inr ?resp"
    by (simp add: exampleEnv_def)
  have 4: "StatusCode ?resp \<noteq> 429" by simp
  have 5: "Decode ?env (Body ?resp) = Inr ?obj"
    by (simp add: exampleEnv_def exampleDecode_def)
  have 6: "Status ?obj \<noteq> ''success''" by simp
  from GetProxyScore_service_error [OF 1 2 3 4 5 6] show ?thesis by simp
qed

text \<open>
  C7, as the claim states it: for every response whose body is not valid JSON of the
  expected shape, a parse error is returned. It fails for a response with status code
  429: the body is not handed to the decoder, and the error is the one of C4. The
  example is a 429 response with a body the decoder rejects.
\<close>

theorem GetProxyScore_parse_error_429_counterexample:
  "Do (exampleEnv 429 ''<html>'')
      (HeaderSet \<lparr>Method = ''GET'', URL = getURL exampleClient ''1.2.3.4'', Header = []\<rparr>
         ''User-Agent'' userAgent) =
     Inr \<lparr>StatusCode = 429, Body = ''<html>''\<rparr> \<and>
   Decode (exampleEnv 429 ''<html>'') ''<html>'' = Inl ''invalid character'' \<and>
   snd (fst (GetProxyScore (exampleEnv 429 ''<html>'') exampleClient ''1.2.3.4''
               exampleWorld)) = Some ''API error: Rate limit exceeded'' \<and>
   ''API error: Rate limit exceeded'' \<noteq> ''Failed to parse API response: invalid character''"
  by (simp add: GetProxyScore_def exampleEnv_def exampleDecode_def exampleClient_def
      exampleWorld_def NewClient_def Errorf_def emit_def Let_def)

text \<open>
  C7, amended: for every response whose status code is not 429, \<^verbatim>\<open>GetProxyScore\<close>
  returns the score 0 and the error "Failed to parse API response: " followed by the
  decoder's error when the decoder returns an error on the body, and only then: a body
  the decoder accepts is judged by its status field alone (the decoded result and a nil
  error for "success", the error "API error: " with the message otherwise), also when
  it lacks a field of the expected shape. The function has a result on every path, and
  none of them panics.
\<close>

theorem GetProxyScore_parse_error:
  assumes "WaitMaxDuration env 1 (MaxWait c) (limiter w) = (True, l')"
    and "NewRequest env ''GET'' (getURL c ip) = Inr req0"
    and "Do env (HeaderSet req0 ''User-Agent'' userAgent) = Inr resp"
    and "StatusCode resp \<noteq> 429"
  shows "fst (GetProxyScore env c ip w) =
           (case Decode env (Body resp) of
              Inl e \<Rightarrow> (0, Some (''Failed to parse API response: '' @ e))
            | Inr respObj \<Rightarrow>
                if Status respObj = ''success'' then (Score respObj, None)
                else (0, Some (''API error: '' @ ErrMsg respObj)))"
  using assms by (simp add: GetProxyScore_def Errorf_def Let_def split: sum.splits)

theorem GetProxyScore_parse_error_witness:
  "fst (GetProxyScore (exampleEnv 200 ''<html>'') exampleClient ''1.2.3.4'' exampleWorld) =
     (0, Some ''Failed to parse API response: invalid character'') \<and>
   fst (GetProxyScore noResultEnv exampleClient ''1.2.3.4'' exampleWorld) = (0, None)"
proof -
  let ?req0 = "\<lparr>Method = ''GET'', URL = getURL exampleClient ''1.2.3.4'', Header = []\<rparr>"
  have rejected: "fst (GetProxyScore (exampleEnv 200 ''<html>'') exampleClient ''1.2.3.4''
                         exampleWorld) =
                    (0, Some ''Failed to parse API response: invalid character'')"
  proof -
    let ?env = "exampleEnv 200 ''<html>''"
    let ?resp = "\<lparr>StatusCode = 200, Body = ''<html>''\<rparr>"
    have 1: "WaitMaxDuration ?env 1 (MaxWait exampleClient) (limiter exampleWorld) = (True, ())"
      by (simp add: exampleEnv_def)
    have 2: "NewRequest ?env ''GET'' (getURL exampleClient ''1.2.3.4'') = Inr ?req0"
      by (simp add: exampleEnv_def)
    have 3: "Do ?env (HeaderSet ?req0 ''User-Agent'' userAgent) = Inr ?resp"
      by (simp add: exampleEnv_def)
    have 4: "StatusCode ?resp \<noteq> 429" by simp
    have 5: "Decode ?env (Body ?resp) = Inl ''invalid character''"
      by (simp add: exampleEnv_def exampleDecode_def)
    from GetProxyScore_parse_error [OF 1 2 3 4] 5 show ?thesis by simp
  qed
  have accepted: "fst (GetProxyScore noResultEnv exampleClient ''1.2.3.4'' exampleWorld) =
                    (0, None)"
  proof -
    let ?resp = "\<lparr>StatusCode = 200, Body = ''success, no result''\<rparr>"
    have 1: "WaitMaxDuration noResultEnv 1 (MaxWait exampleClient) (limiter exampleWorld) =
               (True, ())"
      by (simp add: noResultEnv_def exampleEnv_def)
    have 2: "NewRequest noResultEnv ''GET'' (getURL exampleClient ''1.2.3.4'') = Inr ?req0"
      by (simp add: noResultEnv_def exampleEnv_def)
    have 3: "Do noResultEnv (HeaderSet ?req0 ''User-Agent'' userAgent) = Inr ?resp"
      by (simp add: noResultEnv_def exampleEnv_def)
    have 4: "StatusCode ?resp \<noteq> 429" by simp
    have 5: "Decode noResultEnv (Body ?resp) =
               Inr \<lparr>Status = ''success'', ErrMsg = [], Score = 0\<rparr>"
      by (simp add: noResultEnv_def)
    from GetProxyScore_parse_error [OF 1 2 3 4] 5 show ?thesis by simp
  qed
  from rejected accepted show ?thesis by simp
qed

text \<open>
  C10. Whenever \<^verbatim>\<open>GetProxyScore\<close> returns an error that is not nil (throttled, the
  request could not be built, the transport failed, status 429, the body did not parse,
  the service reported an error), the score it returns is exactly 0.
\<close>

theorem GetProxyScore_error_score_zero:
  "snd (fst (GetProxyScore env c ip w)) \<noteq> None \<Longrightarrow> fst (fst (GetProxyScore env c ip w)) = 0"
  by (auto simp: GetProxyScore_def Errorf_def Let_def split: prod.splits sum.splits if_splits)

theorem GetProxyScore_error_score_zero_witness:
  "snd (fst (GetProxyScore (exampleEnv 200 ''<html>'') exampleClient ''1.2.3.4'' exampleWorld))
     = Some ''Failed to parse API response: invalid character'' \<and>
   fst (fst (GetProxyScore (exampleEnv 200 ''<html>'') exampleClient ''1.2.3.4'' exampleWorld))
     = 0"
proof -
  have err: "snd (fst (GetProxyScore (exampleEnv 200 ''<html>'') exampleClient ''1.2.3.4''
                         exampleWorld)) = Some ''Failed to parse API response: invalid character''"
    by (simp add: GetProxyScore_def exampleEnv_def exampleDecode_def Errorf_def Let_def)
  then have "snd (fst (GetProxyScore (exampleEnv 200 ''<html>'') exampleClient ''1.2.3.4''
                         exampleWorld)) \<noteq> None"
    by simp
  from GetProxyScore_error_score_zero [OF this] err show ?thesis by simp
qed

subsection \<open>The token bucket\<close>

text \<open>Go's division agrees with \<open>div\<close> where the bucket uses it: on a time that is not
  before the start, and on a debt of tokens.\<close>

lemma sdiv_nonneg: "0 \<le> (a::int) \<Longrightarrow> 0 < b \<Longrightarrow> a sdiv b = a div b"
  by (cases "a = 0") (simp_all add: signed_divide_int_def)

text \<open>The refill changes the tokens and the tick alone; it adds no more than the ticks
  passed allow, takes nothing away, and stays within the capacity.\<close>

lemma adjust_fields [simp]:
  "startTime (adjustavailableTokens tb tick) = startTime tb"
  "capacity (adjustavailableTokens tb tick) = capacity tb"
  "quantum (adjustavailableTokens tb tick) = quantum tb"
  "fillInterval (adjustavailableTokens tb tick) = fillInterval tb"
  "latestTick (adjustavailableTokens tb tick) = tick"
  by (simp_all add: adjustavailableTokens_def Let_def)

lemma adjust_avail_le:
  "latestTick tb \<le> tick \<Longrightarrow> 0 \<le> quantum tb \<Longrightarrow>
   availableTokens (adjustavailableTokens tb tick) \<le>
     availableTokens tb + (tick - latestTick tb) * quantum tb"
  by (simp add: adjustavailableTokens_def Let_def)

lemma adjust_avail_ge:
  "latestTick tb \<le> tick \<Longrightarrow> 0 \<le> quantum tb \<Longrightarrow>
   availableTokens tb \<le> capacity tb \<Longrightarrow>
   availableTokens tb \<le> availableTokens (adjustavailableTokens tb tick)"
  by (simp add: adjustavailableTokens_def Let_def)

lemma adjust_avail_cap:
  "availableTokens tb \<le> capacity tb \<Longrightarrow>
   availableTokens (adjustavailableTokens tb tick) \<le> capacity tb"
  by (simp add: adjustavailableTokens_def Let_def)

text \<open>A request for one token from a bucket of quantum 1, and its three outcomes:
  granted now, granted for later, denied.\<close>

lemma take_bucket_one:
  assumes "quantum tb = 1"
  shows "take_bucket tb now 1 maxWait =
     (let tb1 = adjustavailableTokens tb (currentTick tb now);
          a = availableTokens tb1;
          w = startTime tb + (currentTick tb now + 1 - a) * fillInterval tb - now
      in if 1 \<le> a then (0, True, tb1\<lparr>availableTokens := a - 1\<rparr>)
         else if maxWait < w then (0, False, tb1)
         else (w, True, tb1\<lparr>availableTokens := a - 1\<rparr>))"
proof -
  have "- (a - 1) + 1 - 1 = 1 - a" for a :: int by simp
  then show ?thesis
    using assms by (simp add: take_bucket_def Let_def algebra_simps)
qed

lemma take_bucket_cases:
  assumes "take_bucket tb now 1 maxWait = (d, ok, tb')"
    and "quantum tb = 1"
  obtains
    (now) "1 \<le> availableTokens (adjustavailableTokens tb (currentTick tb now))"
      "d = 0" "ok"
      "tb' = (adjustavailableTokens tb (currentTick tb now))
         \<lparr>availableTokens := availableTokens (adjustavailableTokens tb (currentTick tb now)) - 1\<rparr>"
  | (later) "availableTokens (adjustavailableTokens tb (currentTick tb now)) \<le> 0"
      "d \<le> maxWait"
      "d = startTime tb + (currentTick tb now + 1
             - availableTokens (adjustavailableTokens tb (currentTick tb now))) * fillInterval tb - now"
      "ok"
      "tb' = (adjustavailableTokens tb (currentTick tb now))
         \<lparr>availableTokens := availableTokens (adjustavailableTokens tb (currentTick tb now)) - 1\<rparr>"
  | (denied) "availableTokens (adjustavailableTokens tb (currentTick tb now)) \<le> 0"
      "maxWait < startTime tb + (currentTick tb now + 1
             - availableTokens (adjustavailableTokens tb (currentTick tb now))) * fillInterval tb - now"
      "d = 0" "\<not> ok" "tb' = adjustavailableTokens tb (currentTick tb now)"
  using assms(1) unfolding take_bucket_one [OF assms(2)] Let_def
  by (auto split: if_splits)

lemma currentTick_div:
  "startTime tb \<le> now \<Longrightarrow> 0 < fillInterval tb \<Longrightarrow>
   currentTick tb now = (now - startTime tb) div fillInterval tb"
  by (simp add: currentTick_def sdiv_nonneg)

lemma mult_le_iff_le_div:
  assumes "0 < (b::int)"
  shows "e * b \<le> x \<longleftrightarrow> e \<le> x div b"
proof
  assume "e * b \<le> x"
  then have "(e * b) div b \<le> x div b"
    using assms by (rule zdiv_mono1)
  with assms show "e \<le> x div b" by simp
next
  assume "e \<le> x div b"
  then have "e * b \<le> (x div b) * b"
    using assms by (simp add: mult_right_mono)
  also have "\<dots> \<le> x"
    using assms pos_mod_sign [of b x] div_mult_mod_eq [of x b] by linarith
  finally show "e * b \<le> x" .
qed

lemma lt_succ_div_mult:
  assumes "0 < (b::int)"
  shows "x < (x div b + 1) * b"
proof -
  have "(x div b) * b + x mod b = x" by (rule div_mult_mod_eq)
  moreover have "x mod b < b" using assms by simp
  moreover have "(x div b + 1) * b = (x div b) * b + b" by (simp add: algebra_simps)
  ultimately show ?thesis by linarith
qed

text \<open>One request: what it adds to the count of callers through by \<open>T\<close> is paid for
  by the tokens the bucket has, or will have by then.\<close>

lemma take_bucket_step:
  assumes tk: "take_bucket tb now 1 maxWait = (d, ok, tb')"
    and q: "quantum tb = 1" and fi: "0 < fillInterval tb" and st: "startTime tb \<le> now"
  shows "(if through T (Outcome now maxWait d ok) then 1 else 0) +
           max 0 (availableTokens tb' + ((T - startTime tb) div fillInterval tb - currentTick tb now))
         \<le> max 0 (availableTokens (adjustavailableTokens tb (currentTick tb now)) +
                  ((T - startTime tb) div fillInterval tb - currentTick tb now))"
proof -
  let ?tick = "currentTick tb now"
  let ?tau = "(T - startTime tb) div fillInterval tb"
  let ?a = "availableTokens (adjustavailableTokens tb ?tick)"
  have tick: "?tick = (now - startTime tb) div fillInterval tb"
    using st fi by (rule currentTick_div)
  from tk q show ?thesis
  proof (cases rule: take_bucket_cases)
    case now
    have "?tick \<le> ?tau" if "now \<le> T"
      unfolding tick using that fi by (simp add: zdiv_mono1)
    with now show ?thesis
      by (auto simp: through_def)
  next
    case later
    have "?tick + 1 - ?a \<le> ?tau" if "now + d \<le> T"
    proof -
      from that later(3) have "(?tick + 1 - ?a) * fillInterval tb \<le> T - startTime tb"
        by simp
      with fi show ?thesis by (simp add: mult_le_iff_le_div)
    qed
    with later show ?thesis
      by (auto simp: through_def)
  next
    case denied
    then show ?thesis by (simp add: through_def)
  qed
qed

text \<open>What a request leaves of the bucket, and what a run does.\<close>

lemma take_bucket_fields:
  assumes "take_bucket tb now 1 maxWait = (d, ok, tb')" and "quantum tb = 1"
  shows "startTime tb' = startTime tb" "capacity tb' = capacity tb" "quantum tb' = 1"
    "fillInterval tb' = fillInterval tb" "latestTick tb' = currentTick tb now"
  using assms by (auto elim!: take_bucket_cases)

lemma take_bucket_cap:
  assumes "take_bucket tb now 1 maxWait = (d, ok, tb')" and "quantum tb = 1"
    and "availableTokens tb \<le> capacity tb"
  shows "availableTokens tb' \<le> capacity tb"
  using assms(1,2) adjust_avail_cap [OF assms(3), of "currentTick tb now"]
  by (auto elim!: take_bucket_cases)

text \<open>
  The callers through by \<open>T\<close> are paid for by the tokens in the bucket and the refills
  up to \<open>T\<close>, whatever the requests are, as long as they come in the order of their
  times.
\<close>

lemma takes_through_le:
  assumes "quantum tb = 1" and "0 < fillInterval tb"
    and "sorted (map fst rs)"
    and "\<forall>r\<in>set rs. startTime tb \<le> fst r \<and> latestTick tb \<le> currentTick tb (fst r)"
  shows "int (length (filter (through T) (takes tb rs)))
         \<le> max 0 (availableTokens tb + ((T - startTime tb) div fillInterval tb - latestTick tb))"
  using assms
proof (induction rs arbitrary: tb)
  case Nil
  then show ?case by simp
next
  case (Cons r rs)
  obtain now maxWait where r: "r = (now, maxWait)" by (cases r)
  obtain d ok tb' where tk: "take_bucket tb now 1 maxWait = (d, ok, tb')"
    by (cases "take_bucket tb now 1 maxWait")
  note fields = take_bucket_fields [OF tk Cons.prems(1)]
  let ?tau = "(T - startTime tb) div fillInterval tb"
  have st: "startTime tb \<le> now" and lt: "latestTick tb \<le> currentTick tb now"
    using Cons.prems(4) r by auto
  have mono: "currentTick tb now \<le> currentTick tb t" if "now \<le> t" for t
    using that st Cons.prems(2) by (simp add: currentTick_div zdiv_mono1)
  have tb'_tick: "currentTick tb' t = currentTick tb t" for t
    by (simp add: currentTick_def fields)
  have "int (length (filter (through T) (takes tb' rs)))
        \<le> max 0 (availableTokens tb' + ((T - startTime tb') div fillInterval tb' - latestTick tb'))"
  proof (rule Cons.IH)
    show "quantum tb' = 1" by (rule fields)
    show "0 < fillInterval tb'" using Cons.prems(2) by (simp add: fields)
    show "sorted (map fst rs)" using Cons.prems(3) by simp
    show "\<forall>r\<in>set rs. startTime tb' \<le> fst r \<and> latestTick tb' \<le> currentTick tb' (fst r)"
    proof
      fix x assume x: "x \<in> set rs"
      with Cons.prems(3) r have "now \<le> fst x" by auto
      moreover from x Cons.prems(4) have "startTime tb \<le> fst x" by simp
      ultimately show "startTime tb' \<le> fst x \<and> latestTick tb' \<le> currentTick tb' (fst x)"
        using mono by (simp add: fields tb'_tick)
    qed
  qed
  then have ih: "int (length (filter (through T) (takes tb' rs)))
        \<le> max 0 (availableTokens tb' + (?tau - currentTick tb now))"
    by (simp add: fields)
  have step: "(if through T (Outcome now maxWait d ok) then 1 else 0) +
           max 0 (availableTokens tb' + (?tau - currentTick tb now))
         \<le> max 0 (availableTokens (adjustavailableTokens tb (currentTick tb now)) +
                  (?tau - currentTick tb now))"
    using tk Cons.prems(1,2) st by (rule take_bucket_step)
  have adj: "availableTokens (adjustavailableTokens tb (currentTick tb now))
             \<le> availableTokens tb + (currentTick tb now - latestTick tb)"
    using adjust_avail_le [OF lt] Cons.prems(1) by simp
  have "int (length (filter (through T) (takes tb (r # rs))))
        = (if through T (Outcome now maxWait d ok) then 1 else 0)
          + int (length (filter (through T) (takes tb' rs)))"
    by (simp add: r tk)
  with ih step adj show ?case by linarith
qed


lemma after_inv:
  assumes "quantum tb = 1" and "availableTokens tb \<le> capacity tb"
  shows "startTime (after tb rs) = startTime tb \<and> capacity (after tb rs) = capacity tb \<and>
         quantum (after tb rs) = 1 \<and> fillInterval (after tb rs) = fillInterval tb \<and>
         availableTokens (after tb rs) \<le> capacity tb"
  using assms
proof (induction rs arbitrary: tb)
  case Nil
  then show ?case by simp
next
  case (Cons r rs)
  obtain now maxWait where r: "r = (now, maxWait)" by (cases r)
  obtain d ok tb' where tk: "take_bucket tb now 1 maxWait = (d, ok, tb')"
    by (cases "take_bucket tb now 1 maxWait")
  note fields = take_bucket_fields [OF tk Cons.prems(1)]
  have "availableTokens tb' \<le> capacity tb'"
    using take_bucket_cap [OF tk Cons.prems] by (simp add: fields)
  with fields(3) have "startTime (after tb' rs) = startTime tb' \<and>
      capacity (after tb' rs) = capacity tb' \<and> quantum (after tb' rs) = 1 \<and>
      fillInterval (after tb' rs) = fillInterval tb' \<and>
      availableTokens (after tb' rs) \<le> capacity tb'"
    by (rule Cons.IH)
  then show ?case by (simp add: r tk fields)
qed

lemma after_latestTick:
  assumes "quantum tb = 1" and "0 < fillInterval tb"
    and "\<forall>r\<in>set rs. startTime tb \<le> fst r \<and> fst r \<le> s"
    and "latestTick tb \<le> currentTick tb s"
  shows "latestTick (after tb rs) \<le> currentTick tb s"
  using assms
proof (induction rs arbitrary: tb)
  case Nil
  then show ?case by simp
next
  case (Cons r rs)
  obtain now maxWait where r: "r = (now, maxWait)" by (cases r)
  obtain d ok tb' where tk: "take_bucket tb now 1 maxWait = (d, ok, tb')"
    by (cases "take_bucket tb now 1 maxWait")
  note fields = take_bucket_fields [OF tk Cons.prems(1)]
  have tb'_tick: "currentTick tb' t = currentTick tb t" for t
    by (simp add: currentTick_def fields)
  have "startTime tb \<le> now" "now \<le> s" using Cons.prems(3) r by auto
  then have "currentTick tb now \<le> currentTick tb s"
    using Cons.prems(2) by (simp add: currentTick_div zdiv_mono1)
  then have "latestTick (after tb' rs) \<le> currentTick tb' s"
    using Cons.prems(2,3) by (intro Cons.IH) (simp_all add: fields tb'_tick)
  then show ?case by (simp add: r tk tb'_tick)
qed

text \<open>A caller that is granted a token for later waits for a positive time.\<close>

lemma takes_outcomes:
  assumes "quantum tb = 1" and "0 < fillInterval tb"
    and "\<forall>r\<in>set rs. startTime tb \<le> fst r"
  shows "\<forall>out\<in>set (takes tb rs).
           immediate out \<or> (granted out \<and> 0 < waited out \<and> waited out \<le> bound out) \<or>
           (\<not> granted out \<and> waited out = 0)"
  using assms
proof (induction rs arbitrary: tb)
  case Nil
  then show ?case by simp
next
  case (Cons r rs)
  obtain now maxWait where r: "r = (now, maxWait)" by (cases r)
  obtain d ok tb' where tk: "take_bucket tb now 1 maxWait = (d, ok, tb')"
    by (cases "take_bucket tb now 1 maxWait")
  note fields = take_bucket_fields [OF tk Cons.prems(1)]
  have st: "startTime tb \<le> now" using Cons.prems(3) r by simp
  have rest: "\<forall>out\<in>set (takes tb' rs).
           immediate out \<or> (granted out \<and> 0 < waited out \<and> waited out \<le> bound out) \<or>
           (\<not> granted out \<and> waited out = 0)"
    using Cons.prems(2,3) by (intro Cons.IH) (simp_all add: fields)
  have head: "(ok \<and> d = 0) \<or> (ok \<and> 0 < d \<and> d \<le> maxWait) \<or> (\<not> ok \<and> d = 0)"
    using tk Cons.prems(1)
  proof (cases rule: take_bucket_cases)
    case later
    let ?tick = "currentTick tb now"
    let ?a = "availableTokens (adjustavailableTokens tb ?tick)"
    have "now - startTime tb < (?tick + 1) * fillInterval tb"
      using lt_succ_div_mult [OF Cons.prems(2)] st Cons.prems(2) by (simp add: currentTick_div)
    also have "\<dots> \<le> (?tick + 1 - ?a) * fillInterval tb"
      using later(1) Cons.prems(2) by (intro mult_right_mono) simp_all
    finally have "0 < d" using later(3) by simp
    with later show ?thesis by simp
  qed simp_all
  from head rest show ?case by (simp add: r tk immediate_def)
qed

lemma map_asked_takes: "map asked (takes tb rs) = map fst rs"
proof (induction rs arbitrary: tb)
  case Nil
  then show ?case by simp
next
  case (Cons r rs)
  obtain now maxWait where r: "r = (now, maxWait)" by (cases r)
  obtain d ok tb' where tk: "take_bucket tb now 1 maxWait = (d, ok, tb')"
    by (cases "take_bucket tb now 1 maxWait")
  show ?case by (simp add: r tk Cons.IH)
qed

lemma length_filter_mono:
  "\<forall>x\<in>set xs. P x \<longrightarrow> Q x \<Longrightarrow> length (filter P xs) \<le> length (filter Q xs)"
  by (induction xs) auto

lemma rateLimiter_Some:
  "rateLimiter t0 = Some tb0 \<Longrightarrow>
   tb0 = \<lparr>startTime = t0, capacity = 15, quantum = 1, fillInterval = 4 * Second,
          availableTokens = 15, latestTick = 0\<rparr>"
  by (simp add: rateLimiter_def NewBucketWithQuantum_def Second_def)

text \<open>
  C9. Take the bucket \<^verbatim>\<open>rateLimiter\<close>, made at the time \<open>t0\<close>, and any run of
  requests for one token in the order of their times: the requests \<open>pre\<close>, then a
  request at the time \<open>s\<close>, then the requests \<open>rs\<close>. Of the requests from \<open>s\<close> on,
  the number granted whose caller is through by a time \<open>T\<close> is at most 15 plus the
  number of 4-second refills between \<open>s\<close> and \<open>T\<close>: at most 15 when no refill falls
  between the two (the burst), and one more for every refill after that (15 more in 60
  seconds). In particular this bounds the requests granted at once. Every request
  beyond that either waits, for a time that is positive and no longer than its
  \<open>maxWait\<close>, or is denied.
\<close>

theorem rateLimiter_burst_and_refill:
  assumes mk: "rateLimiter t0 = Some tb0"
    and sorted: "sorted (map fst (pre @ (s, m) # rs))"
    and times: "\<forall>r\<in>set (pre @ (s, m) # rs). t0 \<le> fst r"
    and sT: "s \<le> T"
  shows "int (length (filter (through T) (takes (after tb0 pre) ((s, m) # rs))))
           \<le> 15 + ((T - t0) div (4 * Second) - (s - t0) div (4 * Second)) \<and>
         ((\<forall>r\<in>set rs. fst r \<le> T) \<longrightarrow>
            int (length (filter immediate (takes (after tb0 pre) ((s, m) # rs))))
              \<le> 15 + ((T - t0) div (4 * Second) - (s - t0) div (4 * Second))) \<and>
         (\<forall>out\<in>set (takes (after tb0 pre) ((s, m) # rs)).
            immediate out \<or> (granted out \<and> 0 < waited out \<and> waited out \<le> bound out) \<or>
            (\<not> granted out \<and> waited out = 0))"
proof -
  let ?tb = "after tb0 pre"
  let ?outs = "takes ?tb ((s, m) # rs)"
  let ?bound = "15 + ((T - t0) div (4 * Second) - (s - t0) div (4 * Second))"
  have tb0: "startTime tb0 = t0" "capacity tb0 = 15" "quantum tb0 = 1"
    "fillInterval tb0 = 4 * Second" "availableTokens tb0 = 15" "latestTick tb0 = 0"
    using rateLimiter_Some [OF mk] by simp_all
  have fi: "0 < fillInterval tb0" by (simp add: tb0 Second_def)
  have inv: "startTime ?tb = t0" "capacity ?tb = 15" "quantum ?tb = 1"
    "fillInterval ?tb = 4 * Second" "availableTokens ?tb \<le> 15"
    using after_inv [of tb0 pre] by (simp_all add: tb0)
  have fi': "0 < fillInterval ?tb" by (simp add: inv Second_def)
  have t0s: "t0 \<le> s" using times by simp
  have tick: "currentTick ?tb t = (t - t0) div (4 * Second)" if "t0 \<le> t" for t
    using that fi' by (simp add: currentTick_div inv)
  have tick0: "currentTick tb0 t = currentTick ?tb t" for t
    by (simp add: currentTick_def inv tb0)
  have "0 \<le> currentTick tb0 s"
    using t0s by (simp add: tick0 tick Second_def pos_imp_zdiv_nonneg_iff)
  moreover have "\<forall>r\<in>set pre. startTime tb0 \<le> fst r \<and> fst r \<le> s"
    using sorted times by (auto simp: sorted_append tb0)
  ultimately have "latestTick ?tb \<le> currentTick tb0 s"
    using tb0(3) fi by (intro after_latestTick) (simp_all add: tb0)
  then have lt: "latestTick ?tb \<le> currentTick ?tb s" by (simp add: tick0)
  obtain d ok tb' where tk: "take_bucket ?tb s 1 m = (d, ok, tb')"
    by (cases "take_bucket ?tb s 1 m")
  note fields = take_bucket_fields [OF tk inv(3)]
  let ?tau = "(T - t0) div (4 * Second)"
  have tb'_tick: "currentTick tb' t = currentTick ?tb t" for t
    by (simp add: currentTick_def fields)
  have rest: "int (length (filter (through T) (takes tb' rs)))
        \<le> max 0 (availableTokens tb' + ((T - startTime tb') div fillInterval tb' - latestTick tb'))"
  proof (rule takes_through_le)
    show "quantum tb' = 1" by (rule fields)
    show "0 < fillInterval tb'" using fi' by (simp add: fields)
    show "sorted (map fst rs)" using sorted by (simp add: sorted_append)
    show "\<forall>r\<in>set rs. startTime tb' \<le> fst r \<and> latestTick tb' \<le> currentTick tb' (fst r)"
    proof
      fix x assume x: "x \<in> set rs"
      with sorted have "s \<le> fst x" by (auto simp: sorted_append)
      with t0s show "startTime tb' \<le> fst x \<and> latestTick tb' \<le> currentTick tb' (fst x)"
        by (simp add: fields inv tb'_tick tick zdiv_mono1 Second_def)
    qed
  qed
  have step: "(if through T (Outcome s m d ok) then 1 else 0) +
           max 0 (availableTokens tb' + ((T - startTime ?tb) div fillInterval ?tb - currentTick ?tb s))
         \<le> max 0 (availableTokens (adjustavailableTokens ?tb (currentTick ?tb s)) +
                  ((T - startTime ?tb) div fillInterval ?tb - currentTick ?tb s))"
    using tk inv(3) fi' by (rule take_bucket_step) (simp add: inv t0s)
  have cap: "availableTokens (adjustavailableTokens ?tb (currentTick ?tb s)) \<le> 15"
    using adjust_avail_cap [of ?tb "currentTick ?tb s"] inv by simp
  have taus: "(s - t0) div (4 * Second) \<le> ?tau"
    using sT by (simp add: zdiv_mono1 Second_def)
  have count: "int (length (filter (through T) ?outs))
        = (if through T (Outcome s m d ok) then 1 else 0)
          + int (length (filter (through T) (takes tb' rs)))"
    by (simp add: tk)
  have through: "int (length (filter (through T) ?outs)) \<le> ?bound"
    using count rest step cap taus by (simp add: fields inv tick [OF t0s])
  have imm: "int (length (filter immediate ?outs)) \<le> ?bound" if "\<forall>r\<in>set rs. fst r \<le> T"
  proof -
    have "set (map asked ?outs) = set (map fst ((s, m) # rs))"
      by (simp only: map_asked_takes)
    then have eq: "asked ` set ?outs = insert s (fst ` set rs)"
      by (simp only: set_map list.set image_insert fst_conv)
    have "asked out \<le> T" if out: "out \<in> set ?outs" for out
    proof -
      from out have "asked out \<in> asked ` set ?outs" by (rule imageI)
      then have "asked out \<in> insert s (fst ` set rs)" by (simp only: eq)
      with \<open>\<forall>r\<in>set rs. fst r \<le> T\<close> sT show ?thesis by auto
    qed
    then have "\<forall>out\<in>set ?outs. asked out \<le> T" ..
    then have "\<forall>out\<in>set ?outs. immediate out \<longrightarrow> through T out"
      by (simp add: immediate_def through_def del: takes.simps)
    then have "length (filter immediate ?outs) \<le> length (filter (through T) ?outs)"
      by (rule length_filter_mono)
    with through show ?thesis by linarith
  qed
  have outs: "\<forall>out\<in>set ?outs.
            immediate out \<or> (granted out \<and> 0 < waited out \<and> waited out \<le> bound out) \<or>
            (\<not> granted out \<and> waited out = 0)"
    using inv(3) fi' by (rule takes_outcomes) (use times in \<open>simp add: inv\<close>)
  from through imm outs show ?thesis by blast
qed

theorem rateLimiter_burst_and_refill_witness:
  "rateLimiter 0 = Some exampleBucket \<and>
   int (length (filter (through (4 * Second)) (takes exampleBucket exampleRequests)))
     \<le> 15 + ((4 * Second - 0) div (4 * Second) - (0 - 0) div (4 * Second)) \<and>
   int (length (filter immediate (takes exampleBucket exampleRequests)))
     \<le> 15 + ((4 * Second - 0) div (4 * Second) - (0 - 0) div (4 * Second)) \<and>
   length (filter (through (4 * Second)) (takes exampleBucket exampleRequests)) = 16 \<and>
   length (filter immediate (takes exampleBucket exampleRequests)) = 15 \<and>
   takes exampleBucket exampleRequests =
     replicate 15 (Outcome 0 0 0 True) @
     [Outcome Second (5 * Second) (3 * Second) True, Outcome (2 * Second) Second 0 False]"
proof -
  let ?rs = "replicate 14 (0, 0) @ [(Second, 5 * Second), (2 * Second, Second)]"
  let ?bound = "15 + ((4 * Second - 0) div (4 * Second) - (0 - 0) div (4 * Second))"
  have mk: "rateLimiter 0 = Some exampleBucket"
    by (simp add: rateLimiter_def NewBucketWithQuantum_def exampleBucket_def Second_def)
  have sorted: "sorted (map fst ([] @ (0, 0) # ?rs))"
    by (simp add: Second_def sorted_append)
  have times: "\<forall>r\<in>set ([] @ (0, 0) # ?rs). 0 \<le> fst r"
    by (simp add: Second_def)
  have sT: "(0::int) \<le> 4 * Second" by (simp add: Second_def)
  have asked: "\<forall>r\<in>set ?rs. fst r \<le> 4 * Second"
    by (simp add: Second_def)
  have run: "takes exampleBucket exampleRequests =
      replicate 15 (Outcome 0 0 0 True) @
      [Outcome Second (5 * Second) (3 * Second) True, Outcome (2 * Second) Second 0 False]"
    by (simp add: exampleRequests_def exampleBucket_def take_bucket_def
        adjustavailableTokens_def currentTick_def Let_def Second_def eval_nat_numeral)
  from rateLimiter_burst_and_refill [OF mk sorted times sT] asked
  have "int (length (filter (through (4 * Second)) (takes exampleBucket exampleRequests)))
          \<le> ?bound \<and>
        int (length (filter immediate (takes exampleBucket exampleRequests))) \<le> ?bound"
    by (simp add: exampleRequests_def)
  moreover have "length (filter (through (4 * Second)) (takes exampleBucket exampleRequests)) = 16"
    unfolding run by (simp add: through_def Second_def)
  moreover have "length (filter immediate (takes exampleBucket exampleRequests)) = 15"
    unfolding run by (simp add: immediate_def Second_def)
  ultimately show ?thesis using mk run by simp
qed

subsection \<open>GetProxyScore and the rate limiter\<close>

lemma take_bucket_denied:
  assumes "take_bucket tb now count maxWait = (d, False, tb')"
  shows "d = 0 \<and> tb' = adjustavailableTokens tb (currentTick tb now)"
  using assms by (auto simp: take_bucket_def Let_def split: if_splits)

text \<open>
  C2. When the limiter is the bucket and it denies the token within the client's
  MaxWait, \<^verbatim>\<open>GetProxyScore\<close> returns the score 0 and the error
  "Throttled: Can't make query within the next " followed by the MaxWait, at once (the
  clock is where it was: nobody slept), sends no request (the trace is unchanged) and
  leaves the bucket as its refill to the present tick alone makes it: no token is
  taken. For a bucket within its capacity, looked at no earlier than the last time, the
  tokens are no fewer than before.
\<close>

theorem GetProxyScore_throttled:
  assumes env: "WaitMaxDuration env = Bucket_WaitMaxDuration"
    and lim: "limiter w = \<lparr>bucket = tb, clock = now\<rparr>"
    and denied: "\<not> fst (Bucket_WaitMaxDuration 1 (MaxWait c) (limiter w))"
  shows "GetProxyScore env c ip w =
           ((0, Some (''Throttled: Can't make query within the next '' @
                        DurationString env (MaxWait c))),
            w\<lparr>limiter := \<lparr>bucket = adjustavailableTokens tb (currentTick tb now),
                            clock = now\<rparr>\<rparr>) \<and>
         trace (snd (GetProxyScore env c ip w)) = trace w \<and>
         (0 \<le> quantum tb \<and> latestTick tb \<le> currentTick tb now \<and>
          availableTokens tb \<le> capacity tb \<longrightarrow>
            availableTokens tb \<le> availableTokens (bucket (limiter (snd (GetProxyScore env c ip w)))))"
proof -
  obtain d ok tb' where tk: "take_bucket tb now 1 (MaxWait c) = (d, ok, tb')"
    by (cases "take_bucket tb now 1 (MaxWait c)")
  with denied lim have "\<not> ok" by (simp add: Bucket_WaitMaxDuration_def)
  with tk take_bucket_denied [of tb now 1 "MaxWait c" d tb']
  have d: "d = 0" and tb': "tb' = adjustavailableTokens tb (currentTick tb now)" by simp_all
  have res: "GetProxyScore env c ip w =
           ((0, Some (''Throttled: Can't make query within the next '' @
                        DurationString env (MaxWait c))),
            w\<lparr>limiter := \<lparr>bucket = adjustavailableTokens tb (currentTick tb now),
                            clock = now\<rparr>\<rparr>)"
    using tk \<open>\<not> ok\<close> d tb'
    by (simp add: GetProxyScore_def env lim Bucket_WaitMaxDuration_def Errorf_def)
  then show ?thesis
    by (auto simp: adjust_avail_ge)
qed

theorem GetProxyScore_throttled_witness:
  "\<not> fst (Bucket_WaitMaxDuration 1 (MaxWait (NewClient ''a@b.com'' False Static Second))
            (limiter drainedWorld)) \<and>
   GetProxyScore bucketEnv (NewClient ''a@b.com'' False Static Second) ''1.2.3.4'' drainedWorld =
     ((0, Some ''Throttled: Can't make query within the next 1s''), drainedWorld) \<and>
   availableTokens (bucket (limiter drainedWorld)) \<le>
     availableTokens (bucket (limiter (snd (GetProxyScore bucketEnv
       (NewClient ''a@b.com'' False Static Second) ''1.2.3.4'' drainedWorld))))"
proof -
  let ?c = "NewClient ''a@b.com'' False Static Second"
  let ?tb = "exampleBucket\<lparr>availableTokens := 0\<rparr>"
  have env: "WaitMaxDuration bucketEnv = Bucket_WaitMaxDuration"
    by (simp add: bucketEnv_def)
  have lim: "limiter drainedWorld = \<lparr>bucket = ?tb, clock = 0\<rparr>"
    by (simp add: drainedWorld_def)
  have denied: "\<not> fst (Bucket_WaitMaxDuration 1 (MaxWait ?c) (limiter drainedWorld))"
    by (simp add: Bucket_WaitMaxDuration_def take_bucket_def adjustavailableTokens_def
        currentTick_def drainedWorld_def exampleBucket_def NewClient_def Let_def Second_def)
  have same: "adjustavailableTokens ?tb (currentTick ?tb 0) = ?tb"
    by (simp add: adjustavailableTokens_def currentTick_def exampleBucket_def Let_def Second_def)
  have wf: "0 \<le> quantum ?tb \<and> latestTick ?tb \<le> currentTick ?tb 0 \<and>
            availableTokens ?tb \<le> capacity ?tb"
    by (simp add: currentTick_def exampleBucket_def Second_def)
  from GetProxyScore_throttled [OF env lim denied, of "''1.2.3.4''"] wf
  have "GetProxyScore bucketEnv ?c ''1.2.3.4'' drainedWorld =
          ((0, Some ''Throttled: Can't make query within the next 1s''), drainedWorld)"
    and "availableTokens ?tb \<le>
          availableTokens (bucket (limiter (snd (GetProxyScore bucketEnv ?c ''1.2.3.4''
            drainedWorld))))"
    by (simp_all add: same bucketEnv_def exampleDurationString_def NewClient_def Second_def
        drainedWorld_def)
  with denied lim show ?thesis by simp
qed

text \<open>
  The bucket of the examples while it has tokens: a call of the example client gets its
  token at once and returns the score of the example server.
\<close>

lemma GetProxyScore_granted:
  assumes "limiter w = \<lparr>bucket = exampleBucket\<lparr>availableTokens := a\<rparr>, clock = 0\<rparr>"
    and "1 \<le> a" and "a \<le> 15"
  shows "fst (GetProxyScore bucketEnv c ip w) = (0.5, None) \<and>
         limiter (snd (GetProxyScore bucketEnv c ip w)) =
           \<lparr>bucket = exampleBucket\<lparr>availableTokens := a - 1\<rparr>, clock = 0\<rparr>"
  using assms
  by (simp add: GetProxyScore_def bucketEnv_def Bucket_WaitMaxDuration_def take_bucket_def
      adjustavailableTokens_def currentTick_def exampleDecode_def exampleBucket_def emit_def
      Let_def Second_def)

lemma calls_granted:
  assumes "limiter w = \<lparr>bucket = exampleBucket\<lparr>availableTokens := a\<rparr>, clock = 0\<rparr>"
    and "int n \<le> a" and "a \<le> 15"
  shows "fst (calls bucketEnv c ip n w) = replicate n (0.5, None) \<and>
         limiter (snd (calls bucketEnv c ip n w)) =
           \<lparr>bucket = exampleBucket\<lparr>availableTokens := a - int n\<rparr>, clock = 0\<rparr>"
  using assms
proof (induction n arbitrary: w a)
  case 0
  then show ?case by simp
next
  case (Suc n)
  obtain r w' where g: "GetProxyScore bucketEnv c ip w = (r, w')"
    by (cases "GetProxyScore bucketEnv c ip w")
  obtain rs w'' where run: "calls bucketEnv c ip n w' = (rs, w'')"
    by (cases "calls bucketEnv c ip n w'")
  from g GetProxyScore_granted [of w a c ip] Suc.prems
  have r: "r = (0.5, None)"
    and w': "limiter w' = \<lparr>bucket = exampleBucket\<lparr>availableTokens := a - 1\<rparr>, clock = 0\<rparr>"
    by simp_all
  have "int n \<le> a - 1" "a - 1 \<le> 15" using Suc.prems by simp_all
  from Suc.IH [OF w' this] run
  have rs: "rs = replicate n (0.5, None)"
    and w'': "limiter w'' = \<lparr>bucket = exampleBucket\<lparr>availableTokens := a - 1 - int n\<rparr>, clock = 0\<rparr>"
    by simp_all
  have "a - 1 - int n = a - int (Suc n)" by simp
  with w'' have "limiter w'' = \<lparr>bucket = exampleBucket\<lparr>availableTokens := a - int (Suc n)\<rparr>, clock = 0\<rparr>"
    by (simp only:)
  then show ?case
    by (simp add: g run r rs)
qed

text \<open>
  C1 says that a client whose MaxWait is zero is never throttled. The code hands its
  MaxWait to \<^verbatim>\<open>WaitMaxDuration\<close> as it is, zero included. Against the bucket, made
  at time 0, sixteen calls in a row by such a client go as follows: the first fifteen
  return a score, and the sixteenth, made with the bucket empty, returns the error
  "Throttled: Can't make query within the next 0s" instead of waiting for the refill.
\<close>

theorem GetProxyScore_MaxWait_zero_throttled:
  "rateLimiter 0 = Some (bucket (limiter freshWorld)) \<and>
   MaxWait (NewClient ''a@b.com'' False Static 0) = 0 \<and>
   (case calls bucketEnv (NewClient ''a@b.com'' False Static 0) ''1.2.3.4'' 15 freshWorld of
      (rs, w) \<Rightarrow>
        map snd rs = replicate 15 None \<and>
        fst (GetProxyScore bucketEnv (NewClient ''a@b.com'' False Static 0) ''1.2.3.4'' w) =
          (0, Some ''Throttled: Can't make query within the next 0s''))"
proof -
  let ?c = "NewClient ''a@b.com'' False Static 0"
  have mk: "rateLimiter 0 = Some (bucket (limiter freshWorld))"
    by (simp add: rateLimiter_def NewBucketWithQuantum_def freshWorld_def exampleBucket_def
        Second_def)
  have mw: "MaxWait ?c = 0" by (simp add: NewClient_def)
  obtain rs w' where run: "calls bucketEnv ?c ''1.2.3.4'' 15 freshWorld = (rs, w')"
    by (cases "calls bucketEnv ?c ''1.2.3.4'' 15 freshWorld")
  have "limiter freshWorld = \<lparr>bucket = exampleBucket\<lparr>availableTokens := 15\<rparr>, clock = 0\<rparr>"
    by (simp add: freshWorld_def exampleBucket_def)
  from calls_granted [OF this, of 15 ?c "''1.2.3.4''"] run
  have rs: "rs = replicate 15 (0.5, None)"
    and w': "limiter w' = \<lparr>bucket = exampleBucket\<lparr>availableTokens := 0\<rparr>, clock = 0\<rparr>"
    by simp_all
  have last: "fst (GetProxyScore bucketEnv ?c ''1.2.3.4'' w') =
      (0, Some ''Throttled: Can't make query within the next 0s'')"
    by (simp add: GetProxyScore_def bucketEnv_def Bucket_WaitMaxDuration_def take_bucket_def
      adjustavailableTokens_def currentTick_def exampleBucket_def exampleDurationString_def
      Errorf_def w' mw Let_def Second_def)
  from mk mw rs last show ?thesis
    by (simp only: run prod.case) simp
qed

end
